theory Spec2Isabelle
  imports Complex_Main
begin

section \<open>The store: three SQLite tables\<close>

text \<open>
  \<^verbatim>\<open>init_database\<close> creates three tables, each with an
  \<^verbatim>\<open>id INTEGER PRIMARY KEY AUTOINCREMENT\<close> column. A table is the list of its
  rows, each paired with its id, together with the largest id ever handed out (SQLite
  keeps it in \<^verbatim>\<open>sqlite_sequence\<close>, so that an id is never reused after a delete).
\<close>

record 'r table =
  tbl_rows :: "(nat \<times> 'r) list"
  tbl_seq :: nat

text \<open>Columns besides the id: \<open>(timestamp, latitude, longitude)\<close>,
  \<open>(timestamp, window)\<close> and \<open>(uuid, color, wkt)\<close>.\<close>

type_synonym position_row = "string \<times> real \<times> real"
type_synonym sun_exposure_row = "string \<times> string"
type_synonym polygon_row = "string \<times> string \<times> string"

record database =
  iss_positions :: "position_row table"
  iss_sun_exposures :: "sun_exposure_row table"
  polygons :: "polygon_row table"

text \<open>The primary key: ids are distinct, the rows are kept in id order, and no id
  exceeds the sequence counter.\<close>

definition wf_table :: "'r table \<Rightarrow> bool" where
  "wf_table t \<longleftrightarrow>
     sorted_wrt (<) (map fst (tbl_rows t)) \<and> list_all (\<lambda>r. fst r \<le> tbl_seq t) (tbl_rows t)"

definition wf_database :: "database \<Rightarrow> bool" where
  "wf_database db \<longleftrightarrow>
     wf_table (iss_positions db) \<and> wf_table (iss_sun_exposures db) \<and> wf_table (polygons db)"

text \<open>\<^verbatim>\<open>INSERT INTO t (...) VALUES (...)\<close>: the new row takes the next id.\<close>

definition insert_row :: "'r \<Rightarrow> 'r table \<Rightarrow> 'r table" where
  "insert_row r t =
     (let i = tbl_seq t + 1 in t\<lparr>tbl_rows := tbl_rows t @ [(i, r)], tbl_seq := i\<rparr>)"

text \<open>\<^verbatim>\<open>SELECT ... FROM t ORDER BY id ASC\<close>, with the id column kept.\<close>

definition order_by_id_asc :: "'r table \<Rightarrow> (nat \<times> 'r) list" where
  "order_by_id_asc t = sort_key fst (tbl_rows t)"

text \<open>\<^verbatim>\<open>SELECT ... FROM t ORDER BY id DESC LIMIT 1\<close> followed by
  \<^verbatim>\<open>fetchone()\<close>: the row of largest id, \<open>None\<close> on an empty table.\<close>

definition order_by_id_desc_limit_1 :: "'r table \<Rightarrow> (nat \<times> 'r) option" where
  "order_by_id_desc_limit_1 t =
     (case rev (order_by_id_asc t) of [] \<Rightarrow> None | r # _ \<Rightarrow> Some r)"

text \<open>\<^verbatim>\<open>DELETE FROM t WHERE id = ?\<close>.\<close>

definition delete_where_id :: "nat \<Rightarrow> 'r table \<Rightarrow> 'r table" where
  "delete_where_id i t = t\<lparr>tbl_rows := filter (\<lambda>r. fst r \<noteq> i) (tbl_rows t)\<rparr>"

section \<open>Exceptions and endpoint results\<close>

text \<open>The exceptions the modelled code can meet. \<open>RequestException\<close> stands for the
  whole class \<^verbatim>\<open>requests.RequestException\<close> (connection failure, timeout, and the
  \<^verbatim>\<open>HTTPError\<close> that \<^verbatim>\<open>raise_for_status\<close> raises on a non-success status);
  \<open>IntegrityError\<close> is what SQLite raises on a \<^verbatim>\<open>UNIQUE\<close> violation;
  \<open>OtherError\<close> is anything else.\<close>

datatype exn = RequestException | AssertionError | IntegrityError | OtherError

text \<open>The \<^verbatim>\<open>end\<close> of a window is a row's timestamp text, or the integer epoch second
  of an open window.\<close>

datatype end_value = Text string | Epoch int

record exposure_window =
  win_start :: string
  win_end :: end_value

text \<open>The dictionaries the endpoints return.\<close>

datatype response =
    Message string
  | Sun_exposures "exposure_window list"

text \<open>The decorator \<^verbatim>\<open>log\<close>: the wrapped endpoint's result is passed on, and any
  exception becomes the generic error body. (The logger calls of the wrapper change
  neither the result nor the store and are left out.)\<close>

definition log :: "('s \<Rightarrow> (exn + response) \<times> 's) \<Rightarrow> 's \<Rightarrow> response \<times> 's" where
  "log func s =
     (case func s of
        (Inr result, s') \<Rightarrow> (result, s')
      | (Inl e, s') \<Rightarrow> (Message ''An error occured'', s'))"

section \<open>The poller\<close>

text \<open>The JSON object of one successful fetch. The timestamp is held as the text that
  the \<^verbatim>\<open>TEXT\<close> column stores for it.\<close>

record iss_data =
  timestamp :: string
  latitude :: real
  longitude :: real
  visibility :: string

text \<open>What one pass through \<^verbatim>\<open>requests.get\<close>, \<^verbatim>\<open>raise_for_status\<close> and
  \<^verbatim>\<open>response.json\<close> gives: an exception or the payload.\<close>

type_synonym fetch_outcome = "exn + iss_data"

text \<open>The body of the \<^verbatim>\<open>try\<close> block of \<^verbatim>\<open>fetch_iss_data\<close>: the three store
  statements between the fetch and \<^verbatim>\<open>conn.commit()\<close>.\<close>

definition try_block :: "fetch_outcome \<Rightarrow> database \<Rightarrow> exn + database" where
  "try_block fetched db =
     (case fetched of
        Inl e \<Rightarrow> Inl e
      | Inr data \<Rightarrow>
          (let sun_exposure = map_option (\<lambda>r. snd (snd r)) (order_by_id_desc_limit_1 (iss_sun_exposures db));
               db1 = db\<lparr>iss_positions :=
                         insert_row (timestamp data, latitude data, longitude data) (iss_positions db)\<rparr>
           in if visibility data = ''daylight'' then
                (if sun_exposure = None \<or> sun_exposure = Some ''end'' then
                   Inr (db1\<lparr>iss_sun_exposures :=
                              insert_row (timestamp data, ''start'') (iss_sun_exposures db1)\<rparr>)
                 else Inr db1)
              else
                (if sun_exposure \<noteq> None \<and> sun_exposure = Some ''start'' then
                   Inr (db1\<lparr>iss_sun_exposures :=
                              insert_row (timestamp data, ''end'') (iss_sun_exposures db1)\<rparr>)
                 else Inr db1)))"

text \<open>The poller's state: the store, the total time spent in \<^verbatim>\<open>time.sleep\<close>, and
  what it wrote to the logger.\<close>

datatype level = INFO | ERROR

record poller =
  store :: database
  slept :: nat
  logged :: "(level \<times> string) list"

text \<open>One iteration of \<^verbatim>\<open>while True\<close>: the \<^verbatim>\<open>try\<close> block, its two handlers, and
  the \<^verbatim>\<open>finally\<close> clause.\<close>

definition poll_cycle :: "fetch_outcome \<Rightarrow> poller \<Rightarrow> poller" where
  "poll_cycle fetched p =
     (let p1 = p\<lparr>logged := logged p @ [(INFO, ''Fetching wheretheiss api'')]\<rparr>;
          p2 = (case try_block fetched (store p1) of
                  Inr db' \<Rightarrow> p1\<lparr>store := db'\<rparr>
                | Inl RequestException \<Rightarrow>
                    p1\<lparr>logged := logged p1 @ [(ERROR, ''HTTPError at fetching ISS data'')]\<rparr>
                | Inl _ \<Rightarrow>
                    p1\<lparr>logged := logged p1 @ [(ERROR, ''Unknown error at fetching ISS data'')]\<rparr>)
      in p2\<lparr>slept := slept p2 + 20\<rparr>)"

text \<open>The loop never ends by itself; it is run here over the fetch outcomes of its
  first cycles, one per iteration.\<close>

fun fetch_iss_data :: "fetch_outcome list \<Rightarrow> poller \<Rightarrow> poller" where
  "fetch_iss_data [] p = p"
| "fetch_iss_data (fetched # rest) p = fetch_iss_data rest (poll_cycle fetched p)"

section \<open>The shutdown handler\<close>

definition shutdown_event :: "database \<Rightarrow> database" where
  "shutdown_event db =
     (case order_by_id_desc_limit_1 (iss_sun_exposures db) of
        None \<Rightarrow> db
      | Some row \<Rightarrow>
          if snd (snd row) = ''start'' then
            db\<lparr>iss_sun_exposures := delete_where_id (fst row) (iss_sun_exposures db)\<rparr>
          else db)"

section \<open>Listing the sun-exposure windows\<close>

text \<open>\<^verbatim>\<open>for i in range(0, len(rows) - 1, 2)\<close> with its two assertions; \<open>i\<close> is the
  loop index and \<open>result\<close> the list built so far.\<close>

function sun_exposures_loop ::
  "sun_exposure_row list \<Rightarrow> nat \<Rightarrow> exposure_window list \<Rightarrow> exn + exposure_window list" where
  "sun_exposures_loop rows i result =
     (if int i < int (length rows) - 1 then
        (let row = rows ! i; next_row = rows ! (i + 1) in
           if snd row \<noteq> ''start'' then Inl AssertionError
           else if snd next_row \<noteq> ''end'' then Inl AssertionError
           else sun_exposures_loop rows (i + 2)
                  (result @ [\<lparr>win_start = fst row, win_end = Text (fst next_row)\<rparr>]))
      else Inr result)"
  by pat_completeness auto
termination
  by (relation "measure (\<lambda>(rows, i, result). length rows - i)") auto

declare sun_exposures_loop.simps [simp del]

text \<open>Python's \<^verbatim>\<open>int\<close> of a float: truncation towards zero.\<close>

definition py_int :: "real \<Rightarrow> int" where
  "py_int x = (if 0 \<le> x then \<lfloor>x\<rfloor> else \<lceil>x\<rceil>)"

text \<open>The undecorated endpoint. \<open>now\<close> is what \<^verbatim>\<open>datetime.now().timestamp()\<close>
  returns at the call.\<close>

definition get_iss_sun_exposures :: "real \<Rightarrow> database \<Rightarrow> (exn + response) \<times> database" where
  "get_iss_sun_exposures now db =
     (let rows = map snd (order_by_id_asc (iss_sun_exposures db)) in
        case sun_exposures_loop rows 0 [] of
          Inl e \<Rightarrow> (Inl e, db)
        | Inr result \<Rightarrow>
            (let result' =
                   (if length rows \<noteq> 0 \<and> snd (last rows) = ''start'' then
                      result @ [\<lparr>win_start = fst (last rows), win_end = Epoch (py_int now)\<rparr>]
                    else result)
             in (Inr (Sun_exposures result'), db)))"

section \<open>Posting a polygon\<close>

text \<open>What the code reads of a shapely geometry: whether it is a \<^verbatim>\<open>Polygon\<close>, and its
  \<^verbatim>\<open>is_valid\<close>, \<^verbatim>\<open>is_empty\<close> and \<^verbatim>\<open>has_z\<close> attributes. The parser
  \<^verbatim>\<open>shapely.from_wkt\<close> is a parameter of the model.\<close>

record geometry =
  is_Polygon :: bool
  is_valid :: bool
  is_empty :: bool
  has_z :: bool

definition is_valid_2d_wkt_polygon :: "(string \<Rightarrow> exn + geometry) \<Rightarrow> string \<Rightarrow> bool" where
  "is_valid_2d_wkt_polygon from_wkt w =
     (case from_wkt w of
        Inl e \<Rightarrow> False
      | Inr geometry \<Rightarrow>
          if is_Polygon geometry \<and> is_valid geometry \<and> \<not> is_empty geometry then
            (if has_z geometry then False else True)
          else False)"

record polygon_request =
  uuid :: string
  wkt :: string
  color :: string

text \<open>\<^verbatim>\<open>cud_operation\<close> on the \<^verbatim>\<open>INSERT INTO polygons\<close> statement: the
  \<^verbatim>\<open>uuid TEXT UNIQUE\<close> column makes the statement raise when the uuid is already
  stored; otherwise one row is affected.\<close>

definition cud_operation_insert_polygon ::
  "polygon_row \<Rightarrow> database \<Rightarrow> (exn + nat) \<times> database" where
  "cud_operation_insert_polygon r db =
     (if fst r \<in> set (map (\<lambda>row. fst (snd row)) (tbl_rows (polygons db))) then
        (Inl IntegrityError, db)
      else (Inr 1, db\<lparr>polygons := insert_row r (polygons db)\<rparr>))"

definition post_2d_polygon ::
  "(string \<Rightarrow> exn + geometry) \<Rightarrow> polygon_request \<Rightarrow> database \<Rightarrow> (exn + response) \<times> database" where
  "post_2d_polygon from_wkt polygon db =
     (if is_valid_2d_wkt_polygon from_wkt (wkt polygon) then
        (case cud_operation_insert_polygon (uuid polygon, color polygon, wkt polygon) db of
           (Inl e, db') \<Rightarrow> (Inl e, db')
         | (Inr affected_rows, db') \<Rightarrow>
             if affected_rows \<noteq> 0 then (Inr (Message (uuid polygon)), db')
             else (Inr (Message ''No affected rows''), db'))
      else (Inr (Message ''The wkt string is not a valid 2D polygon''), db))"

section \<open>The event log and its invariant\<close>

text \<open>The sun-exposure event log read in insertion order: the \<open>(timestamp, window)\<close>
  columns of \<^verbatim>\<open>SELECT timestamp, window FROM iss_sun_exposures ORDER BY id ASC\<close>.\<close>

definition exposure_events :: "database \<Rightarrow> sun_exposure_row list" where
  "exposure_events db = map snd (order_by_id_asc (iss_sun_exposures db))"

text \<open>Markers alternate \<open>start, end, start, end, \<dots>\<close>; the only marker that may stay
  unmatched is a last \<open>start\<close>.\<close>

fun alternates :: "string list \<Rightarrow> bool" where
  "alternates [] \<longleftrightarrow> True"
| "alternates [m] \<longleftrightarrow> m = ''start''"
| "alternates (m # m' # ms) \<longleftrightarrow> m = ''start'' \<and> m' = ''end'' \<and> alternates ms"

definition alternation_invariant :: "database \<Rightarrow> bool" where
  "alternation_invariant db \<longleftrightarrow> alternates (map snd (exposure_events db))"

text \<open>The store that \<^verbatim>\<open>init_database\<close> leaves on a fresh file: three empty tables.\<close>

definition init_database :: database where
  "init_database =
     \<lparr>iss_positions = \<lparr>tbl_rows = [], tbl_seq = 0\<rparr>,
      iss_sun_exposures = \<lparr>tbl_rows = [], tbl_seq = 0\<rparr>,
      polygons = \<lparr>tbl_rows = [], tbl_seq = 0\<rparr>\<rparr>"

text \<open>The poller when its thread starts on that store.\<close>

definition startup_poller :: poller where
  "startup_poller = \<lparr>store = init_database, slept = 0, logged = []\<rparr>"

section \<open>Facts about the store\<close>

lemma wf_order_by_id_asc: "wf_table t \<Longrightarrow> order_by_id_asc t = tbl_rows t"
  unfolding wf_table_def order_by_id_asc_def
  by (simp add: sort_key_id_if_sorted strict_sorted_imp_sorted)

lemma wf_order_by_id_desc_limit_1:
  "wf_table t \<Longrightarrow>
   order_by_id_desc_limit_1 t = (if tbl_rows t = [] then None else Some (last (tbl_rows t)))"
  by (cases "tbl_rows t" rule: rev_cases)
     (simp_all add: order_by_id_desc_limit_1_def wf_order_by_id_asc)

lemma wf_insert_row: "wf_table t \<Longrightarrow> wf_table (insert_row r t)"
  unfolding wf_table_def insert_row_def
  by (auto simp: Let_def sorted_wrt_append list_all_iff)

lemma rows_insert_row [simp]: "tbl_rows (insert_row r t) = tbl_rows t @ [(tbl_seq t + 1, r)]"
  by (simp add: insert_row_def Let_def)

lemma wf_delete_where_id: "wf_table t \<Longrightarrow> wf_table (delete_where_id i t)"
  unfolding wf_table_def delete_where_id_def
  by (auto simp: sorted_wrt_map sorted_wrt_filter list_all_iff)

lemma delete_last_row:
  assumes "wf_table t" "tbl_rows t \<noteq> []"
  shows "tbl_rows (delete_where_id (fst (last (tbl_rows t))) t) = butlast (tbl_rows t)"
proof -
  obtain xs x where eq: "tbl_rows t = xs @ [x]"
    using assms(2) by (cases "tbl_rows t" rule: rev_cases) auto
  with assms(1) have "\<forall>r\<in>set xs. fst r < fst x"
    by (auto simp: wf_table_def sorted_wrt_append)
  then have "filter (\<lambda>r. fst r \<noteq> fst x) xs = xs"
    by (auto simp: filter_id_conv)
  then show ?thesis
    by (simp add: delete_where_id_def eq)
qed

lemma wf_init_database: "wf_database init_database"
  by (simp add: wf_database_def wf_table_def init_database_def)

lemma exposure_events_wf:
  "wf_table (iss_sun_exposures db) \<Longrightarrow>
   exposure_events db = map snd (tbl_rows (iss_sun_exposures db))"
  by (simp add: exposure_events_def wf_order_by_id_asc)

lemma last_marker_wf:
  assumes "wf_table (iss_sun_exposures db)"
  shows "map_option (\<lambda>r. snd (snd r)) (order_by_id_desc_limit_1 (iss_sun_exposures db)) =
         (if exposure_events db = [] then None else Some (snd (last (exposure_events db))))"
  using assms
  by (simp add: wf_order_by_id_desc_limit_1 exposure_events_wf last_map)

section \<open>Facts about alternation\<close>

text \<open>The recursive predicate says what the invariant says position by position: a
  \<open>start\<close> at every even index and an \<open>end\<close> at every odd one.\<close>

lemma alternates_iff:
  "alternates ms \<longleftrightarrow> (\<forall>i<length ms. ms ! i = (if even i then ''start'' else ''end''))"
proof (induction ms rule: alternates.induct)
  case 1
  then show ?case by simp
next
  case (2 m)
  then show ?case by simp
next
  case (3 m m' ms)
  have "(\<forall>i<length (m # m' # ms). (m # m' # ms) ! i = (if even i then ''start'' else ''end''))
        \<longleftrightarrow> m = ''start'' \<and> m' = ''end'' \<and>
            (\<forall>i<length ms. ms ! i = (if even i then ''start'' else ''end''))"
    (is "?L \<longleftrightarrow> ?R")
  proof
    assume L: ?L
    have "m = ''start''" using L[rule_format, of 0] by simp
    moreover have "m' = ''end''" using L[rule_format, of 1] by simp
    moreover have "\<forall>i<length ms. ms ! i = (if even i then ''start'' else ''end'')"
    proof (intro allI impI)
      fix i assume "i < length ms"
      then show "ms ! i = (if even i then ''start'' else ''end'')"
        using L[rule_format, of "Suc (Suc i)"] by simp
    qed
    ultimately show ?R by simp
  next
    assume R: ?R
    show ?L
    proof (intro allI impI)
      fix i assume i: "i < length (m # m' # ms)"
      show "(m # m' # ms) ! i = (if even i then ''start'' else ''end'')"
      proof (cases i)
        case 0 with R show ?thesis by simp
      next
        case (Suc j)
        show ?thesis
        proof (cases j)
          case 0 with Suc R show ?thesis by simp
        next
          case (Suc k)
          with \<open>i = Suc j\<close> i R show ?thesis by simp
        qed
      qed
    qed
  qed
  with 3 show ?case by simp
qed

lemma alternates_snoc:
  "alternates (ms @ [m]) \<longleftrightarrow>
   alternates ms \<and> m = (if even (length ms) then ''start'' else ''end'')"
  by (induction ms rule: alternates.induct) auto

lemma alternates_last:
  "alternates ms \<Longrightarrow> ms \<noteq> [] \<Longrightarrow>
   last ms = (if even (length ms) then ''end'' else ''start'')"
  by (cases ms rule: rev_cases) (auto simp: alternates_snoc)

lemma alternates_emit:
  assumes "alternates (map snd evs)"
  shows "alternates (map snd (evs @
             (if v = ''daylight'' then
                (if evs = [] \<or> snd (last evs) = ''end'' then [(ts, ''start'')] else [])
              else
                (if evs \<noteq> [] \<and> snd (last evs) = ''start'' then [(ts, ''end'')] else []))))"
proof (cases "evs = []")
  case True
  then show ?thesis by simp
next
  case False
  then have "last (map snd evs) = (if even (length evs) then ''end'' else ''start'')"
    using alternates_last[OF assms] by simp
  then have "snd (last evs) = (if even (length evs) then ''end'' else ''start'')"
    using False by (simp add: last_map)
  with assms False show ?thesis
    by (simp add: alternates_snoc)
qed

section \<open>One poll cycle\<close>

lemma try_block_events:
  assumes wf: "wf_table (iss_sun_exposures db)"
  shows "\<exists>db'. try_block (Inr data) db = Inr db' \<and> wf_table (iss_sun_exposures db') \<and>
           exposure_events db' = exposure_events db @
             (if visibility data = ''daylight'' then
                (if exposure_events db = [] \<or> snd (last (exposure_events db)) = ''end''
                 then [(timestamp data, ''start'')] else [])
              else
                (if exposure_events db \<noteq> [] \<and> snd (last (exposure_events db)) = ''start''
                 then [(timestamp data, ''end'')] else []))"
proof -
  let ?db1 = "db\<lparr>iss_positions :=
                 insert_row (timestamp data, latitude data, longitude data) (iss_positions db)\<rparr>"
  have ev1: "exposure_events ?db1 = exposure_events db"
    by (simp add: exposure_events_def)
  have ins: "\<And>r. exposure_events
                   (?db1\<lparr>iss_sun_exposures := insert_row r (iss_sun_exposures ?db1)\<rparr>)
                 = exposure_events db @ [r]"
    using wf by (simp add: exposure_events_wf wf_insert_row)
  have wfi: "\<And>r. wf_table (iss_sun_exposures
                   (?db1\<lparr>iss_sun_exposures := insert_row r (iss_sun_exposures ?db1)\<rparr>))"
    using wf by (simp add: wf_insert_row)
  show ?thesis
    unfolding try_block_def
    apply (simp only: sum.case Let_def last_marker_wf[OF wf])
    using wf ins wfi ev1 by (auto simp del: rows_insert_row)
qed

lemma store_poll_cycle_Inl: "store (poll_cycle (Inl e) p) = store p"
  by (cases e) (simp_all add: poll_cycle_def try_block_def Let_def)

lemma store_poll_cycle_Inr:
  "try_block (Inr data) (store p) = Inr db' \<Longrightarrow> store (poll_cycle (Inr data) p) = db'"
  by (simp add: poll_cycle_def Let_def)

lemma slept_poll_cycle: "slept (poll_cycle fetched p) = slept p + 20"
  by (simp add: poll_cycle_def Let_def split: sum.split exn.split)

lemma slept_fetch_iss_data:
  "slept (fetch_iss_data outcomes p) = slept p + 20 * length outcomes"
  by (induction outcomes arbitrary: p) (simp_all add: slept_poll_cycle)

lemma poll_cycle_events:
  assumes wf: "wf_table (iss_sun_exposures (store p))"
  shows "wf_table (iss_sun_exposures (store (poll_cycle (Inr data) p))) \<and>
         exposure_events (store (poll_cycle (Inr data) p)) = exposure_events (store p) @
             (if visibility data = ''daylight'' then
                (if exposure_events (store p) = [] \<or>
                    snd (last (exposure_events (store p))) = ''end''
                 then [(timestamp data, ''start'')] else [])
              else
                (if exposure_events (store p) \<noteq> [] \<and>
                    snd (last (exposure_events (store p))) = ''start''
                 then [(timestamp data, ''end'')] else []))"
proof -
  from try_block_events[OF wf, of data] obtain db' where
    tb: "try_block (Inr data) (store p) = Inr db'" and
    rest: "wf_table (iss_sun_exposures db')"
      "exposure_events db' = exposure_events (store p) @
             (if visibility data = ''daylight'' then
                (if exposure_events (store p) = [] \<or>
                    snd (last (exposure_events (store p))) = ''end''
                 then [(timestamp data, ''start'')] else [])
              else
                (if exposure_events (store p) \<noteq> [] \<and>
                    snd (last (exposure_events (store p))) = ''start''
                 then [(timestamp data, ''end'')] else []))"
    by blast
  show ?thesis
    unfolding store_poll_cycle_Inr[OF tb] using rest by simp
qed

lemma poll_cycle_invariant:
  assumes "wf_table (iss_sun_exposures (store p))" and "alternation_invariant (store p)"
  shows "wf_table (iss_sun_exposures (store (poll_cycle fetched p))) \<and>
         alternation_invariant (store (poll_cycle fetched p))"
proof (cases fetched)
  case (Inl e)
  with assms show ?thesis by (simp add: store_poll_cycle_Inl)
next
  case (Inr data)
  note step = poll_cycle_events[OF assms(1), of data]
  have "alternates (map snd (exposure_events (store (poll_cycle (Inr data) p))))"
    unfolding step[THEN conjunct2]
    using assms(2) unfolding alternation_invariant_def by (rule alternates_emit)
  with step show ?thesis
    by (simp add: Inr alternation_invariant_def)
qed

lemma fetch_iss_data_invariant:
  "wf_table (iss_sun_exposures (store p)) \<Longrightarrow> alternation_invariant (store p) \<Longrightarrow>
   wf_table (iss_sun_exposures (store (fetch_iss_data outcomes p))) \<and>
   alternation_invariant (store (fetch_iss_data outcomes p))"
proof (induction outcomes arbitrary: p)
  case Nil
  then show ?case by simp
next
  case (Cons fetched rest)
  from poll_cycle_invariant[OF Cons.prems, of fetched] Cons.IH[of "poll_cycle fetched p"]
  show ?case by simp
qed

lemma quiet_cycles:
  assumes "wf_table (iss_sun_exposures (store p))"
    and "\<forall>data\<in>set samples. visibility data = v"
    and "if v = ''daylight''
         then exposure_events (store p) \<noteq> [] \<and>
              snd (last (exposure_events (store p))) \<noteq> ''end''
         else \<not> (exposure_events (store p) \<noteq> [] \<and>
                 snd (last (exposure_events (store p))) = ''start'')"
  shows "exposure_events (store (fetch_iss_data (map Inr samples) p)) =
         exposure_events (store p)"
  using assms
proof (induction samples arbitrary: p)
  case Nil
  then show ?case by simp
next
  case (Cons data rest)
  have v: "visibility data = v" using Cons.prems(2) by simp
  note step = poll_cycle_events[OF Cons.prems(1), of data]
  have same: "exposure_events (store (poll_cycle (Inr data) p)) = exposure_events (store p)"
    using step Cons.prems(3) v by (simp split: if_splits)
  have "exposure_events (store (fetch_iss_data (map Inr rest) (poll_cycle (Inr data) p))) =
        exposure_events (store (poll_cycle (Inr data) p))"
    using Cons.prems(2,3) step by (intro Cons.IH) (simp_all add: same)
  then show ?case by (simp add: same)
qed

lemma startup_poller_simps:
  "wf_table (iss_sun_exposures (store startup_poller))"
  "exposure_events (store startup_poller) = []"
  "alternation_invariant (store startup_poller)"
  by (simp_all add: startup_poller_def init_database_def wf_table_def exposure_events_def
        order_by_id_asc_def alternation_invariant_def)

section \<open>Facts about the window listing\<close>

lemma drop_eq_ConsD:
  "drop i xs = y # ys \<Longrightarrow> i < length xs \<and> xs ! i = y \<and> drop (Suc i) xs = ys"
  by (metis Cons_nth_drop_Suc drop_all list.distinct(1) list.inject not_le_imp_less)

lemma sun_exposures_loop_pairs:
  assumes "drop i rows = concat (map (\<lambda>(s, e). [(s, ''start''), (e, ''end'')]) ps) @ rest"
    and "length rest \<le> 1"
  shows "sun_exposures_loop rows i result =
         Inr (result @ map (\<lambda>(s, e). \<lparr>win_start = s, win_end = Text e\<rparr>) ps)"
  using assms(1)
proof (induction ps arbitrary: i result)
  case Nil
  then have "length (drop i rows) \<le> 1" using assms(2) by simp
  then have "\<not> int i < int (length rows) - 1" by simp
  then show ?case by (subst sun_exposures_loop.simps) simp
next
  case (Cons p ps)
  obtain s e where p: "p = (s, e)" by (cases p)
  from Cons.prems p have d0: "drop i rows = (s, ''start'') # (e, ''end'') #
      (concat (map (\<lambda>(s, e). [(s, ''start''), (e, ''end'')]) ps) @ rest)"
    by simp
  from drop_eq_ConsD[OF d0] have i: "i < length rows" "rows ! i = (s, ''start'')"
    and d1: "drop (Suc i) rows = (e, ''end'') #
      (concat (map (\<lambda>(s, e). [(s, ''start''), (e, ''end'')]) ps) @ rest)"
    by simp_all
  from drop_eq_ConsD[OF d1] have i1: "Suc i < length rows" "rows ! Suc i = (e, ''end'')"
    and d2: "drop (Suc (Suc i)) rows = concat (map (\<lambda>(s, e). [(s, ''start''), (e, ''end'')]) ps) @ rest"
    by simp_all
  have cond: "int i < int (length rows) - 1" using i1 by simp
  show ?case
    by (subst sun_exposures_loop.simps) (simp add: cond i i1 Let_def Cons.IH[OF d2] p)
qed

lemma get_closed:
  assumes "exposure_events db = concat (map (\<lambda>(s, e). [(s, ''start''), (e, ''end'')]) ps)"
  shows "get_iss_sun_exposures now db =
    (Inr (Sun_exposures (map (\<lambda>(s, e). \<lparr>win_start = s, win_end = Text e\<rparr>) ps)), db)"
proof -
  let ?rows = "map snd (order_by_id_asc (iss_sun_exposures db))"
  have rows: "?rows = concat (map (\<lambda>(s, e). [(s, ''start''), (e, ''end'')]) ps)"
    using assms by (simp add: exposure_events_def)
  have loop: "sun_exposures_loop ?rows 0 [] =
     Inr ([] @ map (\<lambda>(s, e). \<lparr>win_start = s, win_end = Text e\<rparr>) ps)"
    by (rule sun_exposures_loop_pairs[where rest = "[]"]) (simp_all add: rows)
  have lst: "?rows \<noteq> [] \<Longrightarrow> snd (last ?rows) = ''end''"
    unfolding rows by (cases ps rule: rev_cases) (auto)
  then have "\<not> (length ?rows \<noteq> 0 \<and> snd (last ?rows) = ''start'')" by auto
  then show ?thesis
    unfolding get_iss_sun_exposures_def Let_def loop by simp
qed

lemma get_open:
  assumes "exposure_events db =
     concat (map (\<lambda>(s, e). [(s, ''start''), (e, ''end'')]) ps) @ [(t1, ''start'')]"
  shows "get_iss_sun_exposures now db =
    (Inr (Sun_exposures (map (\<lambda>(s, e). \<lparr>win_start = s, win_end = Text e\<rparr>) ps @
       [\<lparr>win_start = t1, win_end = Epoch (py_int now)\<rparr>])), db)"
proof -
  let ?rows = "map snd (order_by_id_asc (iss_sun_exposures db))"
  have rows: "?rows = concat (map (\<lambda>(s, e). [(s, ''start''), (e, ''end'')]) ps) @ [(t1, ''start'')]"
    using assms by (simp add: exposure_events_def)
  have loop: "sun_exposures_loop ?rows 0 [] =
     Inr ([] @ map (\<lambda>(s, e). \<lparr>win_start = s, win_end = Text e\<rparr>) ps)"
    by (rule sun_exposures_loop_pairs[where rest = "[(t1, ''start'')]"]) (simp_all add: rows)
  have "length ?rows \<noteq> 0 \<and> snd (last ?rows) = ''start'' \<and> fst (last ?rows) = t1"
    unfolding rows by simp
  then show ?thesis
    unfolding get_iss_sun_exposures_def Let_def loop by simp
qed

lemma log_get_closed:
  assumes "exposure_events db = concat (map (\<lambda>(s, e). [(s, ''start''), (e, ''end'')]) ps)"
  shows "log (get_iss_sun_exposures now) db =
    (Sun_exposures (map (\<lambda>(s, e). \<lparr>win_start = s, win_end = Text e\<rparr>) ps), db)"
  by (simp add: log_def get_closed[OF assms])

lemma log_get_open:
  assumes "exposure_events db =
     concat (map (\<lambda>(s, e). [(s, ''start''), (e, ''end'')]) ps) @ [(t1, ''start'')]"
  shows "log (get_iss_sun_exposures now) db =
    (Sun_exposures (map (\<lambda>(s, e). \<lparr>win_start = s, win_end = Text e\<rparr>) ps @
       [\<lparr>win_start = t1, win_end = Epoch (py_int now)\<rparr>]), db)"
  by (simp add: log_def get_open[OF assms])

section \<open>Facts about the shutdown handler\<close>

lemma shutdown_event_wf:
  assumes wf: "wf_table (iss_sun_exposures db)"
  shows "shutdown_event db =
     (if exposure_events db \<noteq> [] \<and> snd (last (exposure_events db)) = ''start''
      then db\<lparr>iss_sun_exposures :=
                (iss_sun_exposures db)\<lparr>tbl_rows := butlast (tbl_rows (iss_sun_exposures db))\<rparr>\<rparr>
      else db)"
proof (cases "tbl_rows (iss_sun_exposures db) = []")
  case True
  then show ?thesis
    using wf by (simp add: shutdown_event_def wf_order_by_id_desc_limit_1 exposure_events_wf)
next
  case False
  have del: "delete_where_id (fst (last (tbl_rows (iss_sun_exposures db)))) (iss_sun_exposures db)
      = (iss_sun_exposures db)\<lparr>tbl_rows := butlast (tbl_rows (iss_sun_exposures db))\<rparr>"
    using delete_last_row[OF wf False] by (simp add: delete_where_id_def)
  show ?thesis
    using wf False
    by (simp add: shutdown_event_def wf_order_by_id_desc_limit_1 exposure_events_wf last_map del)
qed

lemma wf_butlast: "wf_table t \<Longrightarrow> wf_table (t\<lparr>tbl_rows := butlast (tbl_rows t)\<rparr>)"
  unfolding wf_table_def
  by (cases "tbl_rows t" rule: rev_cases) (auto simp: sorted_wrt_append)

lemma exposure_events_shutdown_event:
  assumes wf: "wf_table (iss_sun_exposures db)"
  shows "exposure_events (shutdown_event db) =
     (if exposure_events db \<noteq> [] \<and> snd (last (exposure_events db)) = ''start''
      then butlast (exposure_events db) else exposure_events db)"
  unfolding shutdown_event_wf[OF wf]
  using wf wf_butlast[OF wf]
  by (simp add: exposure_events_wf map_butlast)

section \<open>Facts about posting a polygon\<close>

lemma is_valid_2d_wkt_polygon_post:
  "log (post_2d_polygon from_wkt polygon) db =
     (if is_valid_2d_wkt_polygon from_wkt (wkt polygon) then
        (if uuid polygon \<in> set (map (\<lambda>row. fst (snd row)) (tbl_rows (polygons db)))
         then (Message ''An error occured'', db)
         else (Message (uuid polygon),
               db\<lparr>polygons := insert_row (uuid polygon, color polygon, wkt polygon) (polygons db)\<rparr>))
      else (Message ''The wkt string is not a valid 2D polygon'', db))"
  by (simp add: log_def post_2d_polygon_def cud_operation_insert_polygon_def)

section \<open>Example runs\<close>

lemmas run_defs = exposure_events_def order_by_id_asc_def poll_cycle_def try_block_def Let_def
  order_by_id_desc_limit_1_def insert_row_def startup_poller_def init_database_def wf_table_def

lemma example_runs:
  "exposure_events (store (fetch_iss_data
     [Inr \<lparr>timestamp = ''100'', latitude = 1, longitude = 2, visibility = ''daylight''\<rparr>]
     startup_poller)) = [(''100'', ''start'')]"
  "exposure_events (store (fetch_iss_data
     [Inr \<lparr>timestamp = ''100'', latitude = 1, longitude = 2, visibility = ''daylight''\<rparr>,
      Inr \<lparr>timestamp = ''120'', latitude = 1, longitude = 2, visibility = ''eclipsed''\<rparr>]
     startup_poller)) = [(''100'', ''start''), (''120'', ''end'')]"
  "exposure_events (store (fetch_iss_data
     [Inr \<lparr>timestamp = ''100'', latitude = 1, longitude = 2, visibility = ''daylight''\<rparr>,
      Inr \<lparr>timestamp = ''120'', latitude = 1, longitude = 2, visibility = ''eclipsed''\<rparr>,
      Inr \<lparr>timestamp = ''140'', latitude = 1, longitude = 2, visibility = ''daylight''\<rparr>]
     startup_poller)) = [(''100'', ''start''), (''120'', ''end''), (''140'', ''start'')]"
  "exposure_events (store (fetch_iss_data
     [Inr \<lparr>timestamp = ''100'', latitude = 1, longitude = 2, visibility = ''daylight''\<rparr>,
      Inr \<lparr>timestamp = ''120'', latitude = 1, longitude = 2, visibility = ''eclipsed''\<rparr>,
      Inr \<lparr>timestamp = ''140'', latitude = 1, longitude = 2, visibility = ''daylight''\<rparr>,
      Inr \<lparr>timestamp = ''160'', latitude = 1, longitude = 2, visibility = ''eclipsed''\<rparr>]
     startup_poller)) =
   [(''100'', ''start''), (''120'', ''end''), (''140'', ''start''), (''160'', ''end'')]"
  by (simp_all add: run_defs)

lemma example_runs_wf:
  "wf_table (iss_sun_exposures (store (fetch_iss_data
     [Inr \<lparr>timestamp = ''100'', latitude = 1, longitude = 2, visibility = ''daylight''\<rparr>]
     startup_poller)))"
  "wf_table (iss_sun_exposures (store (fetch_iss_data
     [Inr \<lparr>timestamp = ''100'', latitude = 1, longitude = 2, visibility = ''daylight''\<rparr>,
      Inr \<lparr>timestamp = ''120'', latitude = 1, longitude = 2, visibility = ''eclipsed''\<rparr>]
     startup_poller)))"
  by (simp_all add: run_defs)

section \<open>The claims\<close>

text \<open>
  C1. Starting from any log that satisfies the alternation invariant (the empty log is
  one), every poll cycle keeps the invariant, and so does every finite run of cycles,
  whatever the fetches return: read in insertion order the markers go start, end, start,
  end, \<dots>, with at most one unmatched start at the end.
\<close>

theorem alternation_invariant_preserved:
  assumes "wf_table (iss_sun_exposures (store p))" and "alternation_invariant (store p)"
  shows "alternation_invariant (store (poll_cycle fetched p)) \<and>
         alternation_invariant (store (fetch_iss_data outcomes p))"
  using poll_cycle_invariant[OF assms, of fetched] fetch_iss_data_invariant[OF assms, of outcomes]
  by simp

theorem alternation_invariant_preserved_witness:
  "wf_table (iss_sun_exposures (store startup_poller)) \<and>
   alternation_invariant (store startup_poller) \<and>
   alternation_invariant (store (poll_cycle
     (Inr \<lparr>timestamp = ''100'', latitude = 1, longitude = 2, visibility = ''daylight''\<rparr>)
     startup_poller)) \<and>
   alternation_invariant (store (fetch_iss_data
     [Inr \<lparr>timestamp = ''100'', latitude = 1, longitude = 2, visibility = ''daylight''\<rparr>,
      Inl RequestException,
      Inr \<lparr>timestamp = ''120'', latitude = 1, longitude = 2, visibility = ''eclipsed''\<rparr>,
      Inr \<lparr>timestamp = ''140'', latitude = 1, longitude = 2, visibility = ''daylight''\<rparr>]
     startup_poller))"
proof -
  have wf: "wf_table (iss_sun_exposures (store startup_poller))"
    by (rule startup_poller_simps)
  have inv: "alternation_invariant (store startup_poller)"
    by (rule startup_poller_simps)
  from alternation_invariant_preserved[OF wf inv] wf inv show ?thesis
    by blast
qed

text \<open>
  C2. In a cycle whose fetch succeeds, a start event is appended exactly when the
  observed visibility is daylight and the log is empty or its most recent marker is end;
  an end event is appended exactly when the visibility is not daylight and the most
  recent marker is start; the log stays as it is exactly in all other cases.
\<close>

theorem cycle_decision:
  assumes "wf_table (iss_sun_exposures (store p))"
  shows "(exposure_events (store (poll_cycle (Inr data) p)) =
            exposure_events (store p) @ [(timestamp data, ''start'')] \<longleftrightarrow>
          visibility data = ''daylight'' \<and>
          (exposure_events (store p) = [] \<or> snd (last (exposure_events (store p))) = ''end'')) \<and>
         (exposure_events (store (poll_cycle (Inr data) p)) =
            exposure_events (store p) @ [(timestamp data, ''end'')] \<longleftrightarrow>
          visibility data \<noteq> ''daylight'' \<and>
          exposure_events (store p) \<noteq> [] \<and> snd (last (exposure_events (store p))) = ''start'') \<and>
         (exposure_events (store (poll_cycle (Inr data) p)) = exposure_events (store p) \<longleftrightarrow>
          \<not> (visibility data = ''daylight'' \<and>
             (exposure_events (store p) = [] \<or>
              snd (last (exposure_events (store p))) = ''end'')) \<and>
          \<not> (visibility data \<noteq> ''daylight'' \<and>
             exposure_events (store p) \<noteq> [] \<and>
             snd (last (exposure_events (store p))) = ''start''))"
  unfolding poll_cycle_events[OF assms, of data, THEN conjunct2]
  by simp

theorem cycle_decision_witness:
  "wf_table (iss_sun_exposures (store startup_poller)) \<and>
   exposure_events (store (poll_cycle
     (Inr \<lparr>timestamp = ''100'', latitude = 1, longitude = 2, visibility = ''daylight''\<rparr>)
     startup_poller)) = [(''100'', ''start'')]"
proof -
  have wf: "wf_table (iss_sun_exposures (store startup_poller))"
    by (rule startup_poller_simps)
  from cycle_decision[OF wf,
      of "\<lparr>timestamp = ''100'', latitude = 1, longitude = 2, visibility = ''daylight''\<rparr>"]
  show ?thesis
    using wf by (simp add: startup_poller_simps)
qed

text \<open>
  C3. A cycle whose fetch raises a \<open>RequestException\<close> leaves the store, and so both
  logs, as it was; the cycle ends in the same 20-second sleep as a successful one, and
  the loop goes on with the next fetch outcome.
\<close>

theorem transport_error_isolated:
  "store (poll_cycle (Inl RequestException) p) = store p \<and>
   slept (poll_cycle (Inl RequestException) p) = slept p + 20 \<and>
   slept (poll_cycle (Inr data) p) = slept p + 20 \<and>
   fetch_iss_data (Inl RequestException # rest) p =
     fetch_iss_data rest
       (p\<lparr>logged := logged p @ [(INFO, ''Fetching wheretheiss api''),
                                (ERROR, ''HTTPError at fetching ISS data'')],
          slept := slept p + 20\<rparr>) \<and>
   slept (fetch_iss_data (Inl RequestException # rest) p) = slept p + 20 * (1 + length rest)"
  by (simp add: slept_fetch_iss_data slept_poll_cycle store_poll_cycle_Inl)
     (simp add: poll_cycle_def try_block_def Let_def)

text \<open>
  C4. On a log made of consecutive (start, end) pairs the window listing returns one
  closed window per pair, in log order, with the two timestamps of the pair; on
  \<open>[(t1,start),(t2,end),(t3,start),(t4,end)]\<close> it returns the windows \<open>(t1,t2)\<close> and
  \<open>(t3,t4)\<close>.
\<close>

theorem listing_closed_windows:
  "(exposure_events db = concat (map (\<lambda>(s, e). [(s, ''start''), (e, ''end'')]) ps) \<longrightarrow>
      log (get_iss_sun_exposures now) db =
        (Sun_exposures (map (\<lambda>(s, e). \<lparr>win_start = s, win_end = Text e\<rparr>) ps), db)) \<and>
   (exposure_events db = [(t1, ''start''), (t2, ''end''), (t3, ''start''), (t4, ''end'')] \<longrightarrow>
      log (get_iss_sun_exposures now) db =
        (Sun_exposures [\<lparr>win_start = t1, win_end = Text t2\<rparr>,
                        \<lparr>win_start = t3, win_end = Text t4\<rparr>], db))"
proof (intro conjI impI)
  assume "exposure_events db = [(t1, ''start''), (t2, ''end''), (t3, ''start''), (t4, ''end'')]"
  then have "exposure_events db =
      concat (map (\<lambda>(s, e). [(s, ''start''), (e, ''end'')]) [(t1, t2), (t3, t4)])"
    by simp
  from log_get_closed[OF this, of now]
  show "log (get_iss_sun_exposures now) db =
        (Sun_exposures [\<lparr>win_start = t1, win_end = Text t2\<rparr>,
                        \<lparr>win_start = t3, win_end = Text t4\<rparr>], db)"
    by simp
qed (rule log_get_closed)

theorem listing_closed_windows_witness:
  "exposure_events (store (fetch_iss_data
     [Inr \<lparr>timestamp = ''100'', latitude = 1, longitude = 2, visibility = ''daylight''\<rparr>,
      Inr \<lparr>timestamp = ''120'', latitude = 1, longitude = 2, visibility = ''eclipsed''\<rparr>,
      Inr \<lparr>timestamp = ''140'', latitude = 1, longitude = 2, visibility = ''daylight''\<rparr>,
      Inr \<lparr>timestamp = ''160'', latitude = 1, longitude = 2, visibility = ''eclipsed''\<rparr>]
     startup_poller)) =
   [(''100'', ''start''), (''120'', ''end''), (''140'', ''start''), (''160'', ''end'')] \<and>
   fst (log (get_iss_sun_exposures 200) (store (fetch_iss_data
     [Inr \<lparr>timestamp = ''100'', latitude = 1, longitude = 2, visibility = ''daylight''\<rparr>,
      Inr \<lparr>timestamp = ''120'', latitude = 1, longitude = 2, visibility = ''eclipsed''\<rparr>,
      Inr \<lparr>timestamp = ''140'', latitude = 1, longitude = 2, visibility = ''daylight''\<rparr>,
      Inr \<lparr>timestamp = ''160'', latitude = 1, longitude = 2, visibility = ''eclipsed''\<rparr>]
     startup_poller))) =
   Sun_exposures [\<lparr>win_start = ''100'', win_end = Text ''120''\<rparr>,
                  \<lparr>win_start = ''140'', win_end = Text ''160''\<rparr>]"
proof -
  let ?db = "store (fetch_iss_data
     [Inr \<lparr>timestamp = ''100'', latitude = 1, longitude = 2, visibility = ''daylight''\<rparr>,
      Inr \<lparr>timestamp = ''120'', latitude = 1, longitude = 2, visibility = ''eclipsed''\<rparr>,
      Inr \<lparr>timestamp = ''140'', latitude = 1, longitude = 2, visibility = ''daylight''\<rparr>,
      Inr \<lparr>timestamp = ''160'', latitude = 1, longitude = 2, visibility = ''eclipsed''\<rparr>]
     startup_poller)"
  have ev: "exposure_events ?db =
      [(''100'', ''start''), (''120'', ''end''), (''140'', ''start''), (''160'', ''end'')]"
    by (rule example_runs)
  then have ev': "exposure_events ?db =
      concat (map (\<lambda>(s, e). [(s, ''start''), (e, ''end'')]) [(''100'', ''120''), (''140'', ''160'')])"
    by simp
  note inst = listing_closed_windows[of ?db "[(''100'', ''120''), (''140'', ''160'')]" 200
      "''100''" "''120''" "''140''" "''160''"]
  from inst[THEN conjunct1, rule_format, OF ev'] inst[THEN conjunct2, rule_format, OF ev] ev
  show ?thesis by simp
qed

text \<open>
  C5 (amended). On a log of closed pairs followed by a last start at \<open>t1\<close>, the window
  listing returns the closed windows, with their timestamp texts, and then the window
  from \<open>t1\<close> to the wall-clock time of the call truncated to a whole epoch second. The
  end is computed at every call: two calls give the same answer exactly when their
  times truncate to the same second.
\<close>

theorem open_window_synthesis:
  assumes "exposure_events db =
     concat (map (\<lambda>(s, e). [(s, ''start''), (e, ''end'')]) ps) @ [(t1, ''start'')]"
  shows "log (get_iss_sun_exposures now) db =
           (Sun_exposures (map (\<lambda>(s, e). \<lparr>win_start = s, win_end = Text e\<rparr>) ps @
              [\<lparr>win_start = t1, win_end = Epoch (py_int now)\<rparr>]), db) \<and>
         (log (get_iss_sun_exposures now) db = log (get_iss_sun_exposures now') db \<longleftrightarrow>
            py_int now = py_int now')"
  by (simp add: log_get_open[OF assms])

theorem open_window_synthesis_witness:
  "exposure_events (store (fetch_iss_data
     [Inr \<lparr>timestamp = ''100'', latitude = 1, longitude = 2, visibility = ''daylight''\<rparr>,
      Inr \<lparr>timestamp = ''120'', latitude = 1, longitude = 2, visibility = ''eclipsed''\<rparr>,
      Inr \<lparr>timestamp = ''140'', latitude = 1, longitude = 2, visibility = ''daylight''\<rparr>]
     startup_poller)) = [(''100'', ''start''), (''120'', ''end''), (''140'', ''start'')] \<and>
   fst (log (get_iss_sun_exposures (601 / 4)) (store (fetch_iss_data
     [Inr \<lparr>timestamp = ''100'', latitude = 1, longitude = 2, visibility = ''daylight''\<rparr>,
      Inr \<lparr>timestamp = ''120'', latitude = 1, longitude = 2, visibility = ''eclipsed''\<rparr>,
      Inr \<lparr>timestamp = ''140'', latitude = 1, longitude = 2, visibility = ''daylight''\<rparr>]
     startup_poller))) =
   Sun_exposures [\<lparr>win_start = ''100'', win_end = Text ''120''\<rparr>,
                  \<lparr>win_start = ''140'', win_end = Epoch 150\<rparr>]"
proof -
  let ?db = "store (fetch_iss_data
     [Inr \<lparr>timestamp = ''100'', latitude = 1, longitude = 2, visibility = ''daylight''\<rparr>,
      Inr \<lparr>timestamp = ''120'', latitude = 1, longitude = 2, visibility = ''eclipsed''\<rparr>,
      Inr \<lparr>timestamp = ''140'', latitude = 1, longitude = 2, visibility = ''daylight''\<rparr>]
     startup_poller)"
  have ev: "exposure_events ?db = [(''100'', ''start''), (''120'', ''end''), (''140'', ''start'')]"
    by (rule example_runs)
  then have ev': "exposure_events ?db =
      concat (map (\<lambda>(s, e). [(s, ''start''), (e, ''end'')]) [(''100'', ''120'')]) @
      [(''140'', ''start'')]"
    by simp
  have t: "py_int (601 / 4) = 150" by (simp add: py_int_def)
  from open_window_synthesis[OF ev', of "601 / 4" "601 / 4"] ev t
  show ?thesis by simp
qed

text \<open>
  Two calls a half second apart, at 100.25 and at 100.75, on the log \<open>[(100,start)]\<close>:
  both report the open window as ending at 100.
\<close>

theorem open_window_same_second_counterexample:
  "exposure_events (store (fetch_iss_data
     [Inr \<lparr>timestamp = ''100'', latitude = 1, longitude = 2, visibility = ''daylight''\<rparr>]
     startup_poller)) = [(''100'', ''start'')] \<and>
   (401 / 4 :: real) \<noteq> 403 / 4 \<and>
   fst (log (get_iss_sun_exposures (401 / 4)) (store (fetch_iss_data
     [Inr \<lparr>timestamp = ''100'', latitude = 1, longitude = 2, visibility = ''daylight''\<rparr>]
     startup_poller))) = Sun_exposures [\<lparr>win_start = ''100'', win_end = Epoch 100\<rparr>] \<and>
   fst (log (get_iss_sun_exposures (403 / 4)) (store (fetch_iss_data
     [Inr \<lparr>timestamp = ''100'', latitude = 1, longitude = 2, visibility = ''daylight''\<rparr>]
     startup_poller))) = Sun_exposures [\<lparr>win_start = ''100'', win_end = Epoch 100\<rparr>]"
proof -
  let ?db = "store (fetch_iss_data
     [Inr \<lparr>timestamp = ''100'', latitude = 1, longitude = 2, visibility = ''daylight''\<rparr>]
     startup_poller)"
  have ev: "exposure_events ?db = [(''100'', ''start'')]"
    by (rule example_runs)
  then have ev': "exposure_events ?db =
      concat (map (\<lambda>(s, e). [(s, ''start''), (e, ''end'')]) []) @ [(''100'', ''start'')]"
    by simp
  have t: "py_int (401 / 4) = 100" "py_int (403 / 4) = 100" by (simp_all add: py_int_def)
  from log_get_open[OF ev', of "401 / 4"] log_get_open[OF ev', of "403 / 4"] ev t
  show ?thesis by simp
qed

text \<open>
  C6. The shutdown handler deletes the most recent exposure event when its marker is
  start and changes nothing otherwise; all other rows, and the position log, stay as
  they are. On the log \<open>[(t1,start)]\<close> the listing after shutdown is empty; on a log that
  ends \<open>(t1,start),(t2,end)\<close> the handler is a no-op.
\<close>

theorem shutdown_reconciliation:
  assumes wf: "wf_table (iss_sun_exposures db)"
  shows "(exposure_events db \<noteq> [] \<and> snd (last (exposure_events db)) = ''start'' \<longrightarrow>
            shutdown_event db =
              db\<lparr>iss_sun_exposures :=
                   (iss_sun_exposures db)\<lparr>tbl_rows := butlast (tbl_rows (iss_sun_exposures db))\<rparr>\<rparr> \<and>
            exposure_events (shutdown_event db) = butlast (exposure_events db)) \<and>
         (\<not> (exposure_events db \<noteq> [] \<and> snd (last (exposure_events db)) = ''start'') \<longrightarrow>
            shutdown_event db = db) \<and>
         iss_positions (shutdown_event db) = iss_positions db \<and>
         (exposure_events db = [(t1, ''start'')] \<longrightarrow>
            fst (log (get_iss_sun_exposures now) (shutdown_event db)) = Sun_exposures []) \<and>
         (exposure_events db = evs @ [(t1, ''start''), (t2, ''end'')] \<longrightarrow>
            shutdown_event db = db)"
proof -
  note sd = shutdown_event_wf[OF wf] and ev = exposure_events_shutdown_event[OF wf]
  have a1: "exposure_events db \<noteq> [] \<and> snd (last (exposure_events db)) = ''start'' \<Longrightarrow>
      shutdown_event db =
        db\<lparr>iss_sun_exposures :=
             (iss_sun_exposures db)\<lparr>tbl_rows := butlast (tbl_rows (iss_sun_exposures db))\<rparr>\<rparr>"
    by (simp add: sd)
  have a2: "exposure_events db \<noteq> [] \<and> snd (last (exposure_events db)) = ''start'' \<Longrightarrow>
      exposure_events (shutdown_event db) = butlast (exposure_events db)"
    by (simp add: ev)
  have b: "\<not> (exposure_events db \<noteq> [] \<and> snd (last (exposure_events db)) = ''start'') \<Longrightarrow>
      shutdown_event db = db"
    by (auto simp: sd)
  have c: "iss_positions (shutdown_event db) = iss_positions db"
    by (simp add: sd)
  have d: "fst (log (get_iss_sun_exposures now) (shutdown_event db)) = Sun_exposures []"
    if "exposure_events db = [(t1, ''start'')]"
  proof -
    from that have "exposure_events (shutdown_event db) = []"
      by (simp add: ev)
    then have "exposure_events (shutdown_event db) =
        concat (map (\<lambda>(s, e). [(s, ''start''), (e, ''end'')]) [])"
      by simp
    from log_get_closed[OF this, of now] show ?thesis by simp
  qed
  have e: "shutdown_event db = db"
    if "exposure_events db = evs @ [(t1, ''start''), (t2, ''end'')]"
    using that by (simp add: sd)
  from a1 a2 b c d e show ?thesis by blast
qed

theorem shutdown_reconciliation_witness:
  "exposure_events (shutdown_event (store (fetch_iss_data
     [Inr \<lparr>timestamp = ''100'', latitude = 1, longitude = 2, visibility = ''daylight''\<rparr>]
     startup_poller))) = [] \<and>
   fst (log (get_iss_sun_exposures 200) (shutdown_event (store (fetch_iss_data
     [Inr \<lparr>timestamp = ''100'', latitude = 1, longitude = 2, visibility = ''daylight''\<rparr>]
     startup_poller)))) = Sun_exposures [] \<and>
   shutdown_event (store (fetch_iss_data
     [Inr \<lparr>timestamp = ''100'', latitude = 1, longitude = 2, visibility = ''daylight''\<rparr>,
      Inr \<lparr>timestamp = ''120'', latitude = 1, longitude = 2, visibility = ''eclipsed''\<rparr>]
     startup_poller)) =
   store (fetch_iss_data
     [Inr \<lparr>timestamp = ''100'', latitude = 1, longitude = 2, visibility = ''daylight''\<rparr>,
      Inr \<lparr>timestamp = ''120'', latitude = 1, longitude = 2, visibility = ''eclipsed''\<rparr>]
     startup_poller)"
proof -
  let ?db1 = "store (fetch_iss_data
     [Inr \<lparr>timestamp = ''100'', latitude = 1, longitude = 2, visibility = ''daylight''\<rparr>]
     startup_poller)"
  let ?db2 = "store (fetch_iss_data
     [Inr \<lparr>timestamp = ''100'', latitude = 1, longitude = 2, visibility = ''daylight''\<rparr>,
      Inr \<lparr>timestamp = ''120'', latitude = 1, longitude = 2, visibility = ''eclipsed''\<rparr>]
     startup_poller)"
  have wf1: "wf_table (iss_sun_exposures ?db1)" by (rule example_runs_wf)
  have wf2: "wf_table (iss_sun_exposures ?db2)" by (rule example_runs_wf)
  have ev1: "exposure_events ?db1 = [(''100'', ''start'')]" by (rule example_runs)
  have ev2: "exposure_events ?db2 = [] @ [(''100'', ''start''), (''120'', ''end'')]"
    using example_runs(2) by simp
  note r1 = shutdown_reconciliation[OF wf1, of "''100''" 200 "[]" "''120''"]
  note r2 = shutdown_reconciliation[OF wf2, of "''100''" 200 "[]" "''120''"]
  have "exposure_events ?db1 \<noteq> [] \<and> snd (last (exposure_events ?db1)) = ''start''"
    unfolding ev1 by simp
  with r1 have "exposure_events (shutdown_event ?db1) = butlast (exposure_events ?db1)"
    by blast
  then have a: "exposure_events (shutdown_event ?db1) = []"
    unfolding ev1 by simp
  from r1 ev1 have b: "fst (log (get_iss_sun_exposures 200) (shutdown_event ?db1)) = Sun_exposures []"
    by blast
  from r2 ev2 have c: "shutdown_event ?db2 = ?db2"
    by blast
  from a b c show ?thesis by blast
qed

text \<open>
  C7. A log that breaks the alternation invariant is to be reported as a fault, never
  answered with an empty or partial list. The two assertions of the loop do that for
  every pair; a last row without partner whose marker is not start passes unnoticed. On
  the log \<open>[(100,end)]\<close> the listing answers with the empty list, as it does on the empty
  log.
\<close>

theorem trailing_end_not_surfaced:
  "\<not> alternation_invariant
       (init_database\<lparr>iss_sun_exposures := \<lparr>tbl_rows = [(1, (''100'', ''end''))], tbl_seq = 1\<rparr>\<rparr>) \<and>
   fst (log (get_iss_sun_exposures 200)
       (init_database\<lparr>iss_sun_exposures := \<lparr>tbl_rows = [(1, (''100'', ''end''))], tbl_seq = 1\<rparr>\<rparr>))
     = Sun_exposures [] \<and>
   fst (log (get_iss_sun_exposures 200) init_database) = Sun_exposures []"
  by (simp add: alternation_invariant_def exposure_events_def order_by_id_asc_def
        init_database_def log_def get_iss_sun_exposures_def Let_def sun_exposures_loop.simps)

text \<open>
  C8. Successful cycles that all observe the same visibility value, however many,
  append at most one event to the sun-exposure event log in total.
\<close>

theorem debounce:
  assumes wf: "wf_table (iss_sun_exposures (store p))"
    and same: "\<forall>data\<in>set samples. visibility data = v"
  shows "\<exists>extra. exposure_events (store (fetch_iss_data (map Inr samples) p)) =
                   exposure_events (store p) @ extra \<and> length extra \<le> 1"
proof (cases samples)
  case Nil
  then show ?thesis by simp
next
  case (Cons data rest)
  have v: "visibility data = v" using same Cons by simp
  note step = poll_cycle_events[OF wf, of data]
  let ?p1 = "poll_cycle (Inr data) p"
  have quiet: "if v = ''daylight''
         then exposure_events (store ?p1) \<noteq> [] \<and>
              snd (last (exposure_events (store ?p1))) \<noteq> ''end''
         else \<not> (exposure_events (store ?p1) \<noteq> [] \<and>
                 snd (last (exposure_events (store ?p1))) = ''start'')"
    using step v by (simp split: if_splits)
  have "exposure_events (store (fetch_iss_data (map Inr rest) ?p1)) =
        exposure_events (store ?p1)"
    using step same Cons quiet by (intro quiet_cycles[where v = v]) simp_all
  then have "exposure_events (store (fetch_iss_data (map Inr samples) p)) =
             exposure_events (store ?p1)"
    using Cons by simp
  with step show ?thesis by (simp split: if_splits)
qed

theorem debounce_witness:
  "length (exposure_events (store (fetch_iss_data
     (map Inr
       [\<lparr>timestamp = ''100'', latitude = 1, longitude = 2, visibility = ''daylight''\<rparr>,
        \<lparr>timestamp = ''120'', latitude = 3, longitude = 4, visibility = ''daylight''\<rparr>,
        \<lparr>timestamp = ''140'', latitude = 5, longitude = 6, visibility = ''daylight''\<rparr>])
     startup_poller))) \<le> 1"
proof -
  have wf: "wf_table (iss_sun_exposures (store startup_poller))"
    by (rule startup_poller_simps)
  have same: "\<forall>data\<in>set
       [\<lparr>timestamp = ''100'', latitude = 1, longitude = 2, visibility = ''daylight''\<rparr>,
        \<lparr>timestamp = ''120'', latitude = 3, longitude = 4, visibility = ''daylight''\<rparr>,
        \<lparr>timestamp = ''140'', latitude = 5, longitude = 6, visibility = ''daylight''\<rparr>].
       visibility data = ''daylight''"
    by simp
  from debounce[OF wf same] show ?thesis
    by (auto simp: startup_poller_simps)
qed

text \<open>
  C9. On an empty sun-exposure event log the window listing returns the empty sequence,
  and raises nothing.
\<close>

theorem listing_empty_log:
  assumes "exposure_events db = []"
  shows "log (get_iss_sun_exposures now) db = (Sun_exposures [], db)"
proof -
  from assms have "exposure_events db =
      concat (map (\<lambda>(s, e). [(s, ''start''), (e, ''end'')]) [])"
    by simp
  from log_get_closed[OF this, of now] show ?thesis by simp
qed

theorem listing_empty_log_witness:
  "exposure_events init_database = [] \<and>
   log (get_iss_sun_exposures 200) init_database = (Sun_exposures [], init_database)"
proof -
  have ev: "exposure_events init_database = []"
    by (simp add: exposure_events_def order_by_id_asc_def init_database_def)
  from listing_empty_log[OF ev, of 200] ev show ?thesis by simp
qed

text \<open>
  C10. Posting a valid 2D polygon whose uuid is already stored leaves the store as it is
  and returns the generic error body; and no post, whatever it carries, makes two rows
  share a uuid.
\<close>

theorem duplicate_uuid_rejected:
  "(is_valid_2d_wkt_polygon from_wkt (wkt polygon) \<and>
    uuid polygon \<in> set (map (\<lambda>row. fst (snd row)) (tbl_rows (polygons db))) \<longrightarrow>
      log (post_2d_polygon from_wkt polygon) db = (Message ''An error occured'', db)) \<and>
   (distinct (map (\<lambda>row. fst (snd row)) (tbl_rows (polygons db))) \<longrightarrow>
      distinct (map (\<lambda>row. fst (snd row))
        (tbl_rows (polygons (snd (log (post_2d_polygon from_wkt polygon) db))))))"
  by (simp add: is_valid_2d_wkt_polygon_post)

theorem duplicate_uuid_rejected_witness:
  "log (post_2d_polygon (\<lambda>w. Inr \<lparr>is_Polygon = True, is_valid = True, is_empty = False, has_z = False\<rparr>)
        \<lparr>uuid = ''65e43aff'', wkt = ''POLYGON((0 0,1 0,1 1,0 0))'', color = ''#f4fde2''\<rparr>)
       (init_database\<lparr>polygons :=
          \<lparr>tbl_rows = [(1, (''65e43aff'', ''#dea973'', ''POLYGON((0 0,2 0,2 2,0 0))''))],
           tbl_seq = 1\<rparr>\<rparr>) =
   (Message ''An error occured'',
    init_database\<lparr>polygons :=
          \<lparr>tbl_rows = [(1, (''65e43aff'', ''#dea973'', ''POLYGON((0 0,2 0,2 2,0 0))''))],
           tbl_seq = 1\<rparr>\<rparr>)"
proof -
  let ?from_wkt = "\<lambda>w::string. (Inr \<lparr>is_Polygon = True, is_valid = True, is_empty = False, has_z = False\<rparr> :: exn + geometry)"
  let ?polygon = "\<lparr>uuid = ''65e43aff'', wkt = ''POLYGON((0 0,1 0,1 1,0 0))'', color = ''#f4fde2''\<rparr>"
  let ?db = "init_database\<lparr>polygons :=
          \<lparr>tbl_rows = [(1, (''65e43aff'', ''#dea973'', ''POLYGON((0 0,2 0,2 2,0 0))''))],
           tbl_seq = 1\<rparr>\<rparr>"
  have valid: "is_valid_2d_wkt_polygon ?from_wkt (wkt ?polygon)"
    by (simp add: is_valid_2d_wkt_polygon_def)
  have dup: "uuid ?polygon \<in> set (map (\<lambda>row. fst (snd row)) (tbl_rows (polygons ?db)))"
    by simp
  from duplicate_uuid_rejected[of ?from_wkt ?polygon ?db, THEN conjunct1, rule_format,
      OF conjI[OF valid dup]]
  show ?thesis .
qed

end
